theory Spec2Isabelle
  imports Main
begin

section \<open>JavaScript strings\<close>

text \<open>
  A JavaScript string is a sequence of UTF-16 code units. The regular expressions of the
  program carry no \<open>u\<close> flag, so they work on code units, as \<open>substring\<close> and
  \<open>trim\<close> do. A code unit is modelled as a natural number; every function below is
  defined on every list of naturals, so a statement about all lists covers all strings.
\<close>

type_synonym jsstring = "nat list"

definition js :: "string \<Rightarrow> jsstring" where
  "js s = map of_char s"

definition is_letter :: "nat \<Rightarrow> bool" where
  "is_letter c = ((65 \<le> c \<and> c \<le> 90) \<or> (97 \<le> c \<and> c \<le> 122))"

definition is_digit :: "nat \<Rightarrow> bool" where
  "is_digit c = (48 \<le> c \<and> c \<le> 57)"

definition underscore :: nat where
  "underscore = 95"

definition hyphen :: nat where
  "hyphen = 45"

text \<open>The class \<open>\w\<close> of a regular expression: \<open>[A-Za-z0-9_]\<close>.\<close>

definition is_word :: "nat \<Rightarrow> bool" where
  "is_word c = (is_letter c \<or> is_digit c \<or> c = underscore)"

text \<open>
  The class \<open>\s\<close>: the white space and line terminator code points of ECMAScript
  (TAB, LF, VT, FF, CR, SP, NBSP, U+1680, U+2000..U+200A, U+2028, U+2029, U+202F, U+205F,
  U+3000, U+FEFF). \<open>String.prototype.trim\<close> strips the same set.
\<close>

definition is_space :: "nat \<Rightarrow> bool" where
  "is_space c = ((9 \<le> c \<and> c \<le> 13) \<or> c = 32 \<or> c = 160 \<or> c = 5760 \<or> (8192 \<le> c \<and> c \<le> 8202)
     \<or> c = 8232 \<or> c = 8233 \<or> c = 8239 \<or> c = 8287 \<or> c = 12288 \<or> c = 65279)"

definition is_underscore :: "nat \<Rightarrow> bool" where
  "is_underscore c = (c = underscore)"

text \<open>
  \<open>s.replace(/P+/g, r)\<close> for a character class \<open>P\<close>: every maximal run of characters of
  the class is replaced by the one character \<open>r\<close>. The flag says whether the scan is inside
  a run whose replacement has been emitted already.
\<close>

primrec replace_runs_from :: "bool \<Rightarrow> (nat \<Rightarrow> bool) \<Rightarrow> nat \<Rightarrow> jsstring \<Rightarrow> jsstring" where
  "replace_runs_from in_run P r [] = []"
| "replace_runs_from in_run P r (c # cs) =
     (if P c then (if in_run then replace_runs_from True P r cs
                   else r # replace_runs_from True P r cs)
      else c # replace_runs_from False P r cs)"

definition replace_runs :: "(nat \<Rightarrow> bool) \<Rightarrow> nat \<Rightarrow> jsstring \<Rightarrow> jsstring" where
  "replace_runs P r s = replace_runs_from False P r s"

text \<open>\<open>s.replace(/[^\w\s-]/g, '')\<close>: the characters outside the class are deleted.\<close>

definition strip_special_keep_hyphen :: "jsstring \<Rightarrow> jsstring" where
  "strip_special_keep_hyphen s = filter (\<lambda>c. is_word c \<or> is_space c \<or> c = hyphen) s"

text \<open>\<open>s.replace(/[^\w\s]/g, '')\<close>.\<close>

definition strip_special :: "jsstring \<Rightarrow> jsstring" where
  "strip_special s = filter (\<lambda>c. is_word c \<or> is_space c) s"

text \<open>
  \<open>s.replace(/^_|_$/g, '')\<close>: without the \<open>m\<close> flag \<open>^\<close> matches at index 0 only and
  \<open>$\<close> at the end only, so at most one underscore goes at each end; the scan for \<open>_$\<close>
  resumes after a leading match, so the one-character string \<open>_\<close> becomes empty.
\<close>

definition strip_edge_underscores :: "jsstring \<Rightarrow> jsstring" where
  "strip_edge_underscores s =
     (let t = (case s of [] \<Rightarrow> [] | c # cs \<Rightarrow> if c = underscore then cs else s)
      in if t \<noteq> [] \<and> last t = underscore then butlast t else t)"

text \<open>\<open>s.trim()\<close>: white space and line terminators go from both ends.\<close>

definition trim :: "jsstring \<Rightarrow> jsstring" where
  "trim s = rev (dropWhile is_space (rev (dropWhile is_space s)))"

text \<open>\<open>s.substring(0, n)\<close>.\<close>

definition substring0 :: "nat \<Rightarrow> jsstring \<Rightarrow> jsstring" where
  "substring0 n s = take n s"

definition default_title :: jsstring where
  "default_title = js ''youtube_audio''"

text \<open>\<open>s || d\<close> on strings: the empty string is falsy.\<close>

definition or_default :: "jsstring \<Rightarrow> jsstring \<Rightarrow> jsstring" where
  "or_default s d = (if s = [] then d else s)"

section \<open>Filename sanitizer\<close>

text \<open>
  Standard mode, the title derivation of the download handler:
  \<^verbatim>\<open>title.replace(/[^\w\s-]/g, '').replace(/\s+/g, '_').trim() || 'youtube_audio'\<close>
\<close>

definition sanitize_standard :: "jsstring \<Rightarrow> jsstring" where
  "sanitize_standard title =
     or_default (trim (replace_runs is_space underscore (strip_special_keep_hyphen title)))
       default_title"

text \<open>
  Compatibility mode, \<open>cleanTitle\<close> of \<open>handleDownload\<close>:
  \<^verbatim>\<open>videoTitle.replace(/[^\w\s]/g, '').replace(/\s+/g, '_').replace(/_+/g, '_')
     .replace(/^_|_$/g, '').substring(0, 50)\<close>, then \<open>'youtube_audio'\<close> if empty.
\<close>

definition cleanTitle :: "jsstring \<Rightarrow> jsstring" where
  "cleanTitle videoTitle =
     substring0 50 (strip_edge_underscores (replace_runs is_underscore underscore
       (replace_runs is_space underscore (strip_special videoTitle))))"

definition sanitize_compat :: "jsstring \<Rightarrow> jsstring" where
  "sanitize_compat videoTitle =
     (let t = cleanTitle videoTitle in if t = [] then default_title else t)"

definition sanitize :: "jsstring \<Rightarrow> bool \<Rightarrow> jsstring" where
  "sanitize rawTitle compatibilityMode =
     (if compatibilityMode then sanitize_compat rawTitle else sanitize_standard rawTitle)"

text \<open>
  The standard mode as the specification words it: strip what is not a letter, digit,
  white space or hyphen, collapse white space runs to one underscore, trim the underscores
  at both ends, substitute the default for an empty result. It is compared with
  \<open>sanitize_standard\<close> below.
\<close>

definition trim_underscores :: "jsstring \<Rightarrow> jsstring" where
  "trim_underscores s = rev (dropWhile is_underscore (rev (dropWhile is_underscore s)))"

definition sanitize_standard_spec :: "jsstring \<Rightarrow> jsstring" where
  "sanitize_standard_spec title =
     or_default (trim_underscores (replace_runs is_space underscore
       (filter (\<lambda>c. is_letter c \<or> is_digit c \<or> is_space c \<or> c = hyphen) title)))
       default_title"

subsection \<open>Shapes of sanitized strings\<close>

text \<open>A character a standard-mode result can hold.\<close>

definition std_char :: "nat \<Rightarrow> bool" where
  "std_char c = (is_word c \<or> c = hyphen)"

text \<open>No two underscores side by side.\<close>

fun no_double :: "jsstring \<Rightarrow> bool" where
  "no_double (a # b # cs) = (\<not> (a = underscore \<and> b = underscore) \<and> no_double (b # cs))"
| "no_double _ = True"

text \<open>The string does not begin with an underscore.\<close>

definition starts_clean :: "jsstring \<Rightarrow> bool" where
  "starts_clean s = (case s of [] \<Rightarrow> True | c # _ \<Rightarrow> c \<noteq> underscore)"

section \<open>Format selector\<close>

text \<open>
  A format descriptor of the resolver, with the fields the handlers read.
  \<open>audioBitrate\<close> is an optional number of kbps.
\<close>

record format =
  itag :: nat
  container :: jsstring
  qualityLabel :: "jsstring option"
  hasVideo :: bool
  hasAudio :: bool
  audioBitrate :: "int option"

text \<open>Truthiness of an optional number: \<open>undefined\<close> and \<open>0\<close> are falsy.\<close>

definition truthy_number :: "int option \<Rightarrow> bool" where
  "truthy_number v = (case v of None \<Rightarrow> False | Some n \<Rightarrow> n \<noteq> 0)"

text \<open>\<open>(format.audioBitrate || 0)\<close>.\<close>

definition bitrate_or_0 :: "format \<Rightarrow> int" where
  "bitrate_or_0 f = (case audioBitrate f of None \<Rightarrow> 0 | Some n \<Rightarrow> n)"

text \<open>
  \<^verbatim>\<open>info.formats.filter(format => format.hasAudio && !format.hasVideo)
     .filter(format => format.audioBitrate)
     .sort((a, b) => (b.audioBitrate || 0) - (a.audioBitrate || 0))\<close>
  \<open>Array.prototype.sort\<close> is stable; a comparator \<open>b - a\<close> on the bitrates orders by
  bitrate descending, which is the stable insertion sort on the negated bitrate.
\<close>

definition audioFormats :: "format list \<Rightarrow> format list" where
  "audioFormats formats =
     sort_key (\<lambda>f. - bitrate_or_0 f)
       (filter (\<lambda>f. truthy_number (audioBitrate f))
         (filter (\<lambda>f. hasAudio f \<and> \<not> hasVideo f) formats))"

text \<open>The four predicates handed to \<open>find\<close>.\<close>

definition around_128 :: "format \<Rightarrow> bool" where
  "around_128 f = (bitrate_or_0 f \<le> 160 \<and> bitrate_or_0 f \<ge> 96)"

definition at_most_128 :: "format \<Rightarrow> bool" where
  "at_most_128 f = (bitrate_or_0 f \<le> 128)"

definition around_192 :: "format \<Rightarrow> bool" where
  "around_192 f = (bitrate_or_0 f \<ge> 160 \<and> bitrate_or_0 f \<le> 256)"

definition at_least_192 :: "format \<Rightarrow> bool" where
  "at_least_192 f = (bitrate_or_0 f \<ge> 192)"

text \<open>\<open>a || b\<close> on values that are a format or \<open>undefined\<close>.\<close>

definition or_else :: "format option \<Rightarrow> format option \<Rightarrow> format option" where
  "or_else a b = (case a of None \<Rightarrow> b | Some f \<Rightarrow> Some f)"

text \<open>\<open>audioFormats[0]\<close>: \<open>undefined\<close> on the empty array.\<close>

definition first_format :: "format list \<Rightarrow> format option" where
  "first_format fs = (case fs of [] \<Rightarrow> None | f # _ \<Rightarrow> Some f)"

text \<open>
  The selection of the download handler, from the parsed target bitrate and
  \<open>info.formats\<close> to \<open>selectedFormat\<close>; \<open>None\<close> is \<open>undefined\<close>.
\<close>

definition select :: "int \<Rightarrow> format list \<Rightarrow> format option" where
  "select targetBitrate formats =
     (let fs = audioFormats formats;
          selectedFormat =
            (if targetBitrate = 128 then or_else (find around_128 fs) (find at_most_128 fs)
             else if targetBitrate = 192 then or_else (find around_192 fs) (find at_least_192 fs)
             else None)
      in or_else selectedFormat (first_format fs))"

text \<open>
  The options object handed to \<open>ytdl(url, options)\<close>. Both call sites pass the same
  \<open>requestOptions\<close>, which is left out.
\<close>

record ytdl_options =
  opt_format :: "format option"
  opt_quality :: "jsstring option"
  opt_filter :: "jsstring option"

definition highest_audio_options :: ytdl_options where
  "highest_audio_options =
     \<lparr>opt_format = None, opt_quality = Some (js ''highestaudio''), opt_filter = Some (js ''audioonly'')\<rparr>"

text \<open>
  The \<open>try\<close>/\<open>catch\<close> around the selection: \<open>info\<close> is the outcome of
  \<open>await ytdl.getInfo(url)\<close>, \<open>Inl\<close> when it rejects. Nothing else in the \<open>try\<close>
  block throws (\<open>selectedFormat?.audioBitrate\<close> is an optional access, and \<open>ytdl\<close>
  returns its stream at once), so the \<open>catch\<close> branch runs exactly when \<open>getInfo\<close>
  rejects.
\<close>

definition stream_options :: "int \<Rightarrow> 'e + format list \<Rightarrow> ytdl_options" where
  "stream_options targetBitrate info =
     (case info of
        Inl e \<Rightarrow> highest_audio_options
      | Inr formats \<Rightarrow>
          \<lparr>opt_format = select targetBitrate formats, opt_quality = None, opt_filter = None\<rparr>)"

text \<open>The ideal range of a bitrate class, as the specification gives it.\<close>

definition in_ideal_range :: "int \<Rightarrow> int \<Rightarrow> bool" where
  "in_ideal_range b k = (if b = 128 then 96 \<le> k \<and> k \<le> 160 else 160 \<le> k \<and> k \<le> 256)"

text \<open>An audio-only candidate of a given bitrate, for the scenarios.\<close>

definition audio_only :: "nat \<Rightarrow> int \<Rightarrow> format" where
  "audio_only i k =
     \<lparr>itag = i, container = js ''webm'', qualityLabel = None, hasVideo = False, hasAudio = True,
      audioBitrate = Some k\<rparr>"

text \<open>A candidate that carries video and audio.\<close>

definition muxed :: "nat \<Rightarrow> int \<Rightarrow> format" where
  "muxed i k =
     \<lparr>itag = i, container = js ''mp4'', qualityLabel = Some (js ''360p''), hasVideo = True,
      hasAudio = True, audioBitrate = Some k\<rparr>"

section \<open>Request validation\<close>

text \<open>
  A parsed JSON value. Of a number the handlers observe only whether it is zero. An object
  is the list of its members in the order of the text.
\<close>

datatype json = JNull | JBool bool | JNum int | JStr jsstring | JArr "json list"
  | JObj "(jsstring \<times> json) list"

text \<open>
  Reading a property while destructuring a value that is not \<open>null\<close>; \<open>None\<close> is
  \<open>undefined\<close>. \<open>JSON.parse\<close> keeps the last of several members with one key.
  Strings, numbers, booleans and arrays have none of the properties read here.
\<close>

fun get_property :: "json \<Rightarrow> jsstring \<Rightarrow> json option" where
  "get_property (JObj members) key = map_of (rev members) key"
| "get_property _ key = None"

text \<open>Truthiness, as \<open>!url\<close> tests it.\<close>

fun truthy :: "json option \<Rightarrow> bool" where
  "truthy None = False"
| "truthy (Some JNull) = False"
| "truthy (Some (JBool b)) = b"
| "truthy (Some (JNum n)) = (n \<noteq> 0)"
| "truthy (Some (JStr s)) = (s \<noteq> [])"
| "truthy (Some (JArr _)) = True"
| "truthy (Some (JObj _)) = True"

text \<open>A destructuring default, \<open>{ bitrate = '128' }\<close>: it replaces \<open>undefined\<close> only.\<close>

definition with_default :: "json option \<Rightarrow> json \<Rightarrow> json" where
  "with_default v d = (case v of None \<Rightarrow> d | Some x \<Rightarrow> x)"

text \<open>
  What a handler's outer \<open>catch\<close> can receive before the first resolver call:
  \<open>request.json()\<close> rejecting on a body that is not JSON, and the \<open>TypeError\<close> of
  destructuring \<open>null\<close>.
\<close>

datatype thrown = BodyNotJson | DestructureNull

text \<open>
  A response: \<open>ErrorJson status message\<close> is the JSON error body with its status,
  \<open>ServerError e\<close> the status 500 body made from the caught error by the outer \<open>catch\<close>.
\<close>

datatype response = ErrorJson nat jsstring | ServerError thrown

fun status_of :: "response \<Rightarrow> nat" where
  "status_of (ErrorJson status message) = status"
| "status_of (ServerError e) = 500"

text \<open>The calls to the resolver library, in the order they are made.\<close>

datatype resolver_call = ValidateURL json | GetInfo json | Ytdl json ytdl_options

text \<open>The request of the download handler once the validation has passed.\<close>

record download_request =
  req_url :: json
  req_bitrate :: json
  req_sampleRate :: json
  req_oldPhoneMode :: json

definition url_required :: jsstring where
  "url_required = js ''URL is required''"

definition invalid_bitrate :: jsstring where
  "invalid_bitrate = js ''Invalid bitrate. Only 128 and 192 kbps are supported.''"

definition invalid_sample_rate :: jsstring where
  "invalid_sample_rate = js ''Invalid sample rate. Only 16000, 22050, and 44100 Hz are supported.''"

definition invalid_youtube_url :: jsstring where
  "invalid_youtube_url = js ''Invalid YouTube URL''"

text \<open>
  The head of \<open>POST\<close> of the download route, up to the last validation: \<open>body\<close> is the
  outcome of \<open>await request.json()\<close> (\<open>None\<close> when it rejects), \<open>validateURL\<close> is
  \<open>ytdl.validateURL\<close>. The result is the early response, or the request the handler
  goes on with, and the resolver calls made so far.
\<close>

definition POST_download_validation ::
  "(json \<Rightarrow> bool) \<Rightarrow> json option \<Rightarrow> (response + download_request) \<times> resolver_call list" where
  "POST_download_validation validateURL body =
     (case body of
        None \<Rightarrow> (Inl (ServerError BodyNotJson), [])
      | Some JNull \<Rightarrow> (Inl (ServerError DestructureNull), [])
      | Some b \<Rightarrow>
          (let url = get_property b (js ''url'');
               bitrate = with_default (get_property b (js ''bitrate'')) (JStr (js ''128''));
               sampleRate = with_default (get_property b (js ''sampleRate'')) (JStr (js ''22050''));
               oldPhoneMode = with_default (get_property b (js ''oldPhoneMode'')) (JBool True)
           in if \<not> truthy url then (Inl (ErrorJson 400 url_required), [])
              else if bitrate \<notin> set [JStr (js ''128''), JStr (js ''192'')]
                then (Inl (ErrorJson 400 invalid_bitrate), [])
              else if sampleRate \<notin> set [JStr (js ''16000''), JStr (js ''22050''), JStr (js ''44100'')]
                then (Inl (ErrorJson 400 invalid_sample_rate), [])
              else if \<not> validateURL (the url)
                then (Inl (ErrorJson 400 invalid_youtube_url), [ValidateURL (the url)])
              else (Inr \<lparr>req_url = the url, req_bitrate = bitrate, req_sampleRate = sampleRate,
                          req_oldPhoneMode = oldPhoneMode\<rparr>, [ValidateURL (the url)])))"

text \<open>The head of \<open>POST\<close> of the test route, which reads \<open>url\<close> only.\<close>

definition POST_test_validation ::
  "(json \<Rightarrow> bool) \<Rightarrow> json option \<Rightarrow> (response + json) \<times> resolver_call list" where
  "POST_test_validation validateURL body =
     (case body of
        None \<Rightarrow> (Inl (ServerError BodyNotJson), [])
      | Some JNull \<Rightarrow> (Inl (ServerError DestructureNull), [])
      | Some b \<Rightarrow>
          (let url = get_property b (js ''url'')
           in if \<not> truthy url then (Inl (ErrorJson 400 url_required), [])
              else if \<not> validateURL (the url)
                then (Inl (ErrorJson 400 invalid_youtube_url), [ValidateURL (the url)])
              else (Inr (the url), [ValidateURL (the url)])))"

text \<open>\<open>parseInt(bitrate)\<close> on the two strings that pass the validation.\<close>

definition parseInt_bitrate :: "json \<Rightarrow> int" where
  "parseInt_bitrate bitrate = (if bitrate = JStr (js ''128'') then 128 else 192)"

section \<open>Client post-processing\<close>

text \<open>A \<open>Blob\<close>: its bytes and its declared media type.\<close>

record blob =
  blob_bytes :: "nat list"
  blob_type :: jsstring

text \<open>
  The state of the promise \<open>convertToMp3\<close> returns. Its executor is an \<open>async\<close>
  function that only ever calls \<open>resolve\<close>: an exception that leaves the executor rejects
  the executor's own promise, not the returned one, which then stays pending.
\<close>

datatype promise_state = Resolved blob | Rejected | Pending

text \<open>
  The progress callback, as far as the function depends on it: given the progress values
  it has been called with before and the new one, whether the call throws.
\<close>

type_synonym progress_callback = "nat list \<Rightarrow> nat \<Rightarrow> bool"

text \<open>
  \<open>if (onProgress) onProgress(p)\<close>: the calls made so far, extended, and whether the
  statement completes normally.
\<close>

definition report :: "progress_callback option \<Rightarrow> nat \<Rightarrow> nat list \<Rightarrow> nat list \<times> bool" where
  "report onProgress p calls =
     (case onProgress of
        None \<Rightarrow> (calls, True)
      | Some cb \<Rightarrow> (calls @ [p], \<not> cb calls p))"

text \<open>
  \<open>convertToMp3\<close>: the state the returned promise reaches and the progress values
  reported. The timers between the checkpoints always fire and are left out. The
  \<open>catch\<close> branch builds the same blob, reports 100 and resolves.
\<close>

definition convertToMp3 ::
  "nat list \<Rightarrow> jsstring \<Rightarrow> jsstring \<Rightarrow> bool \<Rightarrow> progress_callback option \<Rightarrow> promise_state \<times> nat list" where
  "convertToMp3 audioBuffer bitrate sampleRate oldPhoneMode onProgress =
     (let blob = \<lparr>blob_bytes = audioBuffer, blob_type = js ''audio/mpeg''\<rparr>;
          catch = (\<lambda>calls. let (calls', ok) = report onProgress 100 calls
                           in (if ok then Resolved blob else Pending, calls'));
          (c1, ok1) = report onProgress 20 []
      in if \<not> ok1 then catch c1 else
         let (c2, ok2) = report onProgress 50 c1
         in if \<not> ok2 then catch c2 else
            let (c3, ok3) = report onProgress 80 c2
            in if \<not> ok3 then catch c3 else
               let (c4, ok4) = report onProgress 100 c3
               in if \<not> ok4 then catch c4 else (Resolved blob, c4))"


section \<open>Properties of the filename sanitizer\<close>

lemma is_word_not_space: "is_word c \<Longrightarrow> \<not> is_space c"
  by (auto simp: is_word_def is_space_def is_letter_def is_digit_def underscore_def)

lemma hyphen_not_space: "\<not> is_space hyphen"
  by (simp add: is_space_def hyphen_def)

lemma is_word_underscore: "is_word underscore"
  by (simp add: is_word_def)

lemma set_replace_runs_from:
  "set (replace_runs_from b P r s) \<subseteq> insert r {c \<in> set s. \<not> P c}"
  by (induction s arbitrary: b) auto

lemma replace_runs_from_id:
  "\<forall>c \<in> set s. \<not> P c \<Longrightarrow> replace_runs_from b P r s = s"
  by (induction s arbitrary: b) auto

lemma set_trim: "set (trim s) \<subseteq> set s"
  unfolding trim_def by (metis set_rev set_dropWhileD subsetI)

lemma dropWhile_none: "\<forall>c \<in> set s. \<not> P c \<Longrightarrow> dropWhile P s = s"
  by (cases s) auto

lemma trim_id: "\<forall>c \<in> set s. \<not> is_space c \<Longrightarrow> trim s = s"
  by (simp add: trim_def dropWhile_none)

lemma default_title_value:
  "default_title = [121, 111, 117, 116, 117, 98, 101, 95, 97, 117, 100, 105, 111]"
  by (simp add: default_title_def js_def)

lemma default_title_word: "\<forall>c \<in> set default_title. is_word c"
  by (simp add: default_title_value is_word_def is_letter_def is_digit_def underscore_def)

lemma no_space_after_replace:
  "\<forall>c \<in> set (replace_runs is_space underscore s). \<not> is_space c"
  using set_replace_runs_from [of False is_space underscore s] is_word_not_space [OF is_word_underscore]
  by (auto simp: replace_runs_def)

lemma trim_noop: "trim (replace_runs is_space underscore s) = replace_runs is_space underscore s"
  by (rule trim_id) (rule no_space_after_replace)

lemma std_char_not_space: "std_char c \<Longrightarrow> \<not> is_space c"
  using is_word_not_space hyphen_not_space by (auto simp: std_char_def)

lemma std_pipeline_chars:
  "\<forall>c \<in> set (replace_runs is_space underscore (strip_special_keep_hyphen s)). std_char c"
  using set_replace_runs_from [of False is_space underscore "strip_special_keep_hyphen s"]
  by (auto simp: replace_runs_def strip_special_keep_hyphen_def std_char_def is_word_underscore)

lemma sanitize_standard_chars: "\<forall>c \<in> set (sanitize_standard s). std_char c"
  using std_pipeline_chars [of s] default_title_word
  by (auto simp: sanitize_standard_def trim_noop or_default_def std_char_def)

lemma sanitize_standard_nonempty: "sanitize_standard s \<noteq> []"
  by (simp add: sanitize_standard_def or_default_def default_title_value)

lemma sanitize_standard_fix:
  assumes "\<forall>c \<in> set y. std_char c" and "y \<noteq> []"
  shows "sanitize_standard y = y"
proof -
  have ns: "\<forall>c \<in> set y. \<not> is_space c" using assms(1) std_char_not_space by blast
  have 1: "strip_special_keep_hyphen y = y"
    using assms(1) by (simp add: strip_special_keep_hyphen_def std_char_def) (metis (mono_tags, lifting) filter_True)
  have 2: "replace_runs is_space underscore y = y"
    using ns by (simp add: replace_runs_def replace_runs_from_id)
  show ?thesis using assms(2) by (simp add: sanitize_standard_def 1 2 trim_id [OF ns] or_default_def)
qed

lemma sanitize_standard_idem: "sanitize_standard (sanitize_standard x) = sanitize_standard x"
  by (rule sanitize_standard_fix [OF sanitize_standard_chars sanitize_standard_nonempty])

lemma no_double_Cons:
  "no_double (a # t) = ((a = underscore \<longrightarrow> starts_clean t) \<and> no_double t)"
  by (cases t) (auto simp: starts_clean_def)

lemma starts_clean_simps [simp]:
  "starts_clean []" "starts_clean (c # cs) = (c \<noteq> underscore)"
  by (simp_all add: starts_clean_def)

lemma collapse_underscores_shape:
  "no_double (replace_runs_from b is_underscore underscore s)
   \<and> (b \<longrightarrow> starts_clean (replace_runs_from b is_underscore underscore s))"
  by (induction s arbitrary: b) (auto simp: no_double_Cons is_underscore_def)

lemma collapse_underscores_id:
  "no_double s \<Longrightarrow> (b \<longrightarrow> starts_clean s) \<Longrightarrow> replace_runs_from b is_underscore underscore s = s"
  by (induction s arbitrary: b) (auto simp: no_double_Cons is_underscore_def)

lemma no_double_take: "no_double s \<Longrightarrow> no_double (take n s)"
proof (induction s arbitrary: n)
  case Nil
  then show ?case by simp
next
  case (Cons a s)
  show ?case
  proof (cases n)
    case 0
    then show ?thesis by simp
  next
    case (Suc m)
    have "starts_clean s \<Longrightarrow> starts_clean (take m s)"
      by (cases s; cases m) auto
    with Cons Suc show ?thesis by (auto simp: no_double_Cons)
  qed
qed

lemma starts_clean_take: "starts_clean s \<Longrightarrow> starts_clean (take n s)"
  by (cases s; cases n) auto

lemma no_double_butlast: "no_double s \<Longrightarrow> no_double (butlast s)"
  by (simp add: butlast_conv_take no_double_take)

lemma starts_clean_butlast: "starts_clean s \<Longrightarrow> starts_clean (butlast s)"
  by (simp add: butlast_conv_take starts_clean_take)

lemma strip_edge_clean_start:
  "starts_clean s \<Longrightarrow>
   strip_edge_underscores s = (if s \<noteq> [] \<and> last s = underscore then butlast s else s)"
  by (cases s) (simp_all add: strip_edge_underscores_def Let_def)

lemma strip_edge_leading:
  "strip_edge_underscores (underscore # cs) =
     (if cs \<noteq> [] \<and> last cs = underscore then butlast cs else cs)"
  by (simp add: strip_edge_underscores_def Let_def)

lemma strip_edge_shape:
  assumes "no_double s"
  shows "no_double (strip_edge_underscores s) \<and> starts_clean (strip_edge_underscores s)"
proof (cases "starts_clean s")
  case True
  with assms show ?thesis
    by (simp add: strip_edge_clean_start no_double_butlast starts_clean_butlast del: butlast.simps)
next
  case False
  then obtain cs where s: "s = underscore # cs"
    by (cases s) auto
  with assms have "no_double cs" "starts_clean cs"
    by (simp_all add: no_double_Cons)
  then show ?thesis
    unfolding s strip_edge_leading
    by (simp add: no_double_butlast starts_clean_butlast del: butlast.simps)
qed

lemma set_strip_edge: "set (strip_edge_underscores s) \<subseteq> set s"
  by (cases s) (auto simp: strip_edge_underscores_def Let_def dest: in_set_butlastD)

lemma compat_pipeline_word:
  "\<forall>c \<in> set (replace_runs is_underscore underscore
      (replace_runs is_space underscore (strip_special s))). is_word c"
proof -
  have a: "\<forall>c \<in> set (replace_runs is_space underscore (strip_special s)). is_word c"
    using set_replace_runs_from [of False is_space underscore "strip_special s"]
    by (auto simp: replace_runs_def strip_special_def is_word_underscore)
  show ?thesis
    using a set_replace_runs_from [of False is_underscore underscore
        "replace_runs is_space underscore (strip_special s)"]
    by (auto simp: replace_runs_def is_word_underscore)
qed

lemma cleanTitle_word: "\<forall>c \<in> set (cleanTitle s). is_word c"
proof -
  let ?u = "replace_runs is_underscore underscore (replace_runs is_space underscore (strip_special s))"
  have "set (cleanTitle s) \<subseteq> set (strip_edge_underscores ?u)"
    unfolding cleanTitle_def substring0_def by (rule set_take_subset)
  also have "\<dots> \<subseteq> set ?u" by (rule set_strip_edge)
  finally show ?thesis using compat_pipeline_word [of s] by blast
qed

lemma cleanTitle_length: "length (cleanTitle s) \<le> 50"
  by (simp add: cleanTitle_def substring0_def)

lemma cleanTitle_shape: "no_double (cleanTitle s) \<and> starts_clean (cleanTitle s)"
proof -
  let ?u = "replace_runs is_underscore underscore (replace_runs is_space underscore (strip_special s))"
  have "no_double ?u"
    using collapse_underscores_shape [of False] by (simp add: replace_runs_def)
  then show ?thesis
    using strip_edge_shape [of ?u]
    by (simp add: cleanTitle_def substring0_def no_double_take starts_clean_take)
qed

lemma cleanTitle_on_clean:
  assumes w: "\<forall>c \<in> set y. is_word c" and nd: "no_double y" and sc: "starts_clean y"
    and len: "length y \<le> 50"
  shows "cleanTitle y = (if y \<noteq> [] \<and> last y = underscore then butlast y else y)"
proof -
  have ns: "\<forall>c \<in> set y. \<not> is_space c" using w is_word_not_space by blast
  have 1: "strip_special y = y" using w by (simp add: strip_special_def)
  have 2: "replace_runs is_space underscore y = y"
    using ns by (simp add: replace_runs_def replace_runs_from_id)
  have 3: "replace_runs is_underscore underscore y = y"
    using nd by (simp add: replace_runs_def collapse_underscores_id)
  have 4: "strip_edge_underscores y = (if y \<noteq> [] \<and> last y = underscore then butlast y else y)"
    using sc by (cases y) (auto simp: strip_edge_underscores_def Let_def)
  have 5: "length (butlast y) \<le> 50" using len by simp
  show ?thesis using len 5 by (simp add: cleanTitle_def 1 2 3 4 substring0_def del: length_butlast)
qed

lemma default_title_shape:
  "no_double default_title \<and> starts_clean default_title \<and> length default_title \<le> 50
   \<and> last default_title \<noteq> underscore \<and> default_title \<noteq> []"
  by (simp add: default_title_value underscore_def)

lemma sanitize_compat_props:
  "(\<forall>c \<in> set (sanitize_compat x). is_word c) \<and> no_double (sanitize_compat x)
   \<and> starts_clean (sanitize_compat x) \<and> length (sanitize_compat x) \<le> 50
   \<and> sanitize_compat x \<noteq> []"
  using cleanTitle_word [of x] cleanTitle_length [of x] cleanTitle_shape [of x]
    default_title_word default_title_shape
  by (simp add: sanitize_compat_def Let_def)

lemma sanitize_compat_again:
  "sanitize_compat (sanitize_compat x) =
     (if last (sanitize_compat x) = underscore then butlast (sanitize_compat x)
      else sanitize_compat x)"
proof -
  let ?r = "sanitize_compat x"
  have p: "\<forall>c \<in> set ?r. is_word c" "no_double ?r" "starts_clean ?r" "length ?r \<le> 50" "?r \<noteq> []"
    using sanitize_compat_props [of x] by simp_all
  have ct: "cleanTitle ?r = (if last ?r = underscore then butlast ?r else ?r)"
    using cleanTitle_on_clean [OF p(1) p(2) p(3) p(4)] p(5) by simp
  have "last ?r = underscore \<Longrightarrow> butlast ?r \<noteq> []"
    using p(3) p(5) by (cases ?r rule: rev_cases) (auto simp: starts_clean_def split: list.splits)
  then show ?thesis
    using ct p(5) unfolding sanitize_compat_def [of ?r] by (simp add: Let_def)
qed

lemma sanitize_compat_idem_iff:
  "sanitize_compat (sanitize_compat x) = sanitize_compat x \<longleftrightarrow> last (sanitize_compat x) \<noteq> underscore"
proof -
  have "sanitize_compat x \<noteq> []" using sanitize_compat_props [of x] by simp
  then have "length (butlast (sanitize_compat x)) < length (sanitize_compat x)"
    by simp
  then have "butlast (sanitize_compat x) \<noteq> sanitize_compat x"
    by (metis less_irrefl)
  then show ?thesis by (simp add: sanitize_compat_again)
qed

text \<open>
  The scan that models \<open>replace(/P+/g, r)\<close> replaces a maximal run by the one
  character: a run between a prefix that does not end in the class and a suffix that does
  not begin in it becomes \<open>r\<close>.
\<close>

lemma replace_runs_from_inside_run:
  "\<forall>c \<in> set ws. P c \<Longrightarrow> replace_runs_from True P r (ws @ b) = replace_runs_from True P r b"
  by (induction ws) auto

lemma replace_runs_from_flag:
  "b = [] \<or> \<not> P (hd b) \<Longrightarrow> replace_runs_from True P r b = replace_runs_from False P r b"
  by (cases b) auto

lemma replace_runs_from_prefix:
  "a = [] \<and> \<not> f \<or> a \<noteq> [] \<and> \<not> P (last a) \<Longrightarrow>
   replace_runs_from f P r (a @ s) = replace_runs_from f P r a @ replace_runs_from False P r s"
  by (induction a arbitrary: f) (auto split: if_splits)

lemma replace_runs_maximal_run:
  assumes "ws \<noteq> []" and "\<forall>c \<in> set ws. P c"
    and "a = [] \<or> \<not> P (last a)" and "b = [] \<or> \<not> P (hd b)"
  shows "replace_runs P r (a @ ws @ b) = replace_runs P r a @ r # replace_runs P r b"
proof -
  obtain w ws' where ws: "ws = w # ws'" using assms(1) by (cases ws) auto
  have "replace_runs_from False P r (ws @ b) = r # replace_runs_from True P r (ws' @ b)"
    using assms(2) ws by simp
  also have "\<dots> = r # replace_runs_from False P r b"
    using assms(2) assms(4) ws
    by (simp add: replace_runs_from_inside_run replace_runs_from_flag)
  finally have run: "replace_runs_from False P r (ws @ b) = r # replace_runs_from False P r b" .
  have "replace_runs_from False P r (a @ ws @ b)
        = replace_runs_from False P r a @ replace_runs_from False P r (ws @ b)"
    using assms(3) by (intro replace_runs_from_prefix) auto
  with run show ?thesis by (simp add: replace_runs_def)
qed

lemmas san_defs = sanitize_def sanitize_standard_def sanitize_compat_def cleanTitle_def
  sanitize_standard_spec_def trim_underscores_def js_def or_default_def trim_def replace_runs_def
  strip_special_keep_hyphen_def strip_special_def strip_edge_underscores_def substring0_def
  is_space_def is_word_def is_letter_def is_digit_def is_underscore_def hyphen_def underscore_def
  default_title_def Let_def

lemma no_double_last2: "no_double (ys @ [a, b]) \<Longrightarrow> \<not> (a = underscore \<and> b = underscore)"
  by (induction ys) (auto simp: no_double_Cons)

lemma sanitize_compat_third:
  "sanitize_compat (sanitize_compat (sanitize_compat x)) = sanitize_compat (sanitize_compat x)"
proof -
  let ?r = "sanitize_compat x"
  have p: "no_double ?r" "starts_clean ?r" "?r \<noteq> []"
    using sanitize_compat_props [of x] by simp_all
  have "last (sanitize_compat ?r) \<noteq> underscore"
  proof (cases "last ?r = underscore")
    case False
    then show ?thesis by (simp add: sanitize_compat_again)
  next
    case True
    from p(3) obtain ys b where r: "?r = ys @ [b]" by (cases ?r rule: rev_cases) auto
    with True have b: "b = underscore" by simp
    have "ys \<noteq> []" using p(2) r b by (cases ys) (auto simp: starts_clean_def)
    then obtain zs a where ys: "ys = zs @ [a]" by (cases ys rule: rev_cases) auto
    have "no_double (zs @ [a, b])" using p(1) r ys by simp
    then have "a \<noteq> underscore" using b no_double_last2 by blast
    moreover have "sanitize_compat ?r = butlast ?r"
      using True by (simp add: sanitize_compat_again)
    moreover have "butlast ?r = zs @ [a]" unfolding r ys by (simp add: butlast_append)
    ultimately show ?thesis by simp
  qed
  then show ?thesis using sanitize_compat_idem_iff [of ?r] by simp
qed

lemma sanitize_standard_pipeline:
  "sanitize_standard x =
     or_default (replace_runs is_space underscore (filter (\<lambda>c. is_letter c \<or> is_digit c \<or> c = underscore \<or> is_space c \<or> c = hyphen) x)) default_title"
proof -
  have "strip_special_keep_hyphen x = filter (\<lambda>c. is_letter c \<or> is_digit c \<or> c = underscore \<or> is_space c \<or> c = hyphen) x"
    by (simp add: strip_special_keep_hyphen_def is_word_def disj_ac)
  then show ?thesis by (simp add: sanitize_standard_def trim_noop)
qed

text \<open>
  Claim C5 as stated fails: the standard mode keeps an underscore of the input, since the
  class \<open>\w\<close> holds it.
\<close>

theorem sanitize_standard_counterexample:
  "sanitize (js ''a_b'') False = js ''a_b'' \<and> sanitize_standard_spec (js ''a_b'') = js ''ab''
   \<and> sanitize (js ''a_b'') False \<noteq> sanitize_standard_spec (js ''a_b'')"
  by (simp add: san_defs)

text \<open>
  Claim C5, amended. The standard mode deletes every character that is not a letter, digit,
  underscore, white space or hyphen and replaces each white space run by one underscore:
  apart from the underscores at its two ends, the result is the title so stripped and
  collapsed, whenever that string holds a character other than an underscore. It yields
  \<open>youtube_audio\<close> when no character survives the stripping. The result is never
  empty and holds letters, digits, underscores and hyphens only. Nothing is said of the
  underscores at the ends, nor of a title whose kept characters are all white space or
  underscores.
\<close>

theorem sanitize_standard_amended:
  "(trim_underscores (replace_runs is_space underscore (filter (\<lambda>c. is_letter c \<or> is_digit c \<or> c = underscore \<or> is_space c \<or> c = hyphen) x)) \<noteq> [] \<longrightarrow>
      trim_underscores (sanitize x False)
        = trim_underscores (replace_runs is_space underscore (filter (\<lambda>c. is_letter c \<or> is_digit c \<or> c = underscore \<or> is_space c \<or> c = hyphen) x)))
   \<and> (filter (\<lambda>c. is_letter c \<or> is_digit c \<or> c = underscore \<or> is_space c \<or> c = hyphen) x = [] \<longrightarrow> sanitize x False = js ''youtube_audio'')
   \<and> (\<forall>c \<in> set (sanitize x False). is_letter c \<or> is_digit c \<or> c = underscore \<or> c = hyphen)
   \<and> sanitize x False \<noteq> []"
proof -
  let ?core = "replace_runs is_space underscore (filter (\<lambda>c. is_letter c \<or> is_digit c \<or> c = underscore \<or> is_space c \<or> c = hyphen) x)"
  have p: "sanitize x False = or_default ?core default_title"
    by (simp add: sanitize_def sanitize_standard_pipeline)
  have 1: "trim_underscores (sanitize x False) = trim_underscores ?core"
    if "trim_underscores ?core \<noteq> []"
  proof -
    from that have "?core \<noteq> []" by (auto simp: trim_underscores_def)
    then show ?thesis by (simp add: p or_default_def)
  qed
  have 2: "sanitize x False = js ''youtube_audio''" if "filter (\<lambda>c. is_letter c \<or> is_digit c \<or> c = underscore \<or> is_space c \<or> c = hyphen) x = []"
    using that by (simp add: p or_default_def replace_runs_def default_title_def)
  have 3: "\<forall>c \<in> set (sanitize x False). is_letter c \<or> is_digit c \<or> c = underscore \<or> c = hyphen"
    using sanitize_standard_chars [of x] by (simp add: sanitize_def std_char_def is_word_def disj_ac)
  have 4: "sanitize x False \<noteq> []"
    using sanitize_standard_nonempty [of x] by (simp add: sanitize_def)
  from 1 2 3 4 show ?thesis by blast
qed

text \<open>
  The theorem of claim C5 at the title \<open>My  Song - live_1!\<close>, which keeps its inner
  underscore and hyphen, and at the title \<open>!!!\<close>, of which nothing survives.
\<close>

theorem sanitize_standard_amended_witness:
  "trim_underscores (replace_runs is_space underscore
       (filter (\<lambda>c. is_letter c \<or> is_digit c \<or> c = underscore \<or> is_space c \<or> c = hyphen) (js ''My  Song - live_1!''))) \<noteq> []
   \<and> trim_underscores (sanitize (js ''My  Song - live_1!'') False) = js ''My_Song_-_live_1''
   \<and> filter (\<lambda>c. is_letter c \<or> is_digit c \<or> c = underscore \<or> is_space c \<or> c = hyphen) (js ''!!!'') = []
   \<and> sanitize (js ''!!!'') False = js ''youtube_audio''
   \<and> sanitize (js ''My  Song - live_1!'') False \<noteq> []"
proof -
  have e: "trim_underscores (replace_runs is_space underscore
       (filter (\<lambda>c. is_letter c \<or> is_digit c \<or> c = underscore \<or> is_space c \<or> c = hyphen) (js ''My  Song - live_1!''))) = js ''My_Song_-_live_1''"
    by (simp add: san_defs)
  have n: "js ''My_Song_-_live_1'' \<noteq> []" by (simp add: js_def)
  have f: "filter (\<lambda>c. is_letter c \<or> is_digit c \<or> c = underscore \<or> is_space c \<or> c = hyphen) (js ''!!!'') = []"
    by (simp add: san_defs)
  from sanitize_standard_amended [of "js ''My  Song - live_1!''"]
    sanitize_standard_amended [of "js ''!!!''"] e n f
  show ?thesis by simp
qed

text \<open>
  Claim C6 as stated fails in compatibility mode: a title cut at 50 characters can end in
  an underscore, which a second application removes.
\<close>

theorem sanitize_idempotent_counterexample:
  "sanitize (js ''aaaaaaaaaaaaaaaaaaaaaaaaaaaaaaaaaaaaaaaaaaaaaaaaa b'') True = js ''aaaaaaaaaaaaaaaaaaaaaaaaaaaaaaaaaaaaaaaaaaaaaaaaa_''
   \<and> sanitize (sanitize (js ''aaaaaaaaaaaaaaaaaaaaaaaaaaaaaaaaaaaaaaaaaaaaaaaaa b'') True) True = js ''aaaaaaaaaaaaaaaaaaaaaaaaaaaaaaaaaaaaaaaaaaaaaaaaa''
   \<and> sanitize (sanitize (js ''aaaaaaaaaaaaaaaaaaaaaaaaaaaaaaaaaaaaaaaaaaaaaaaaa b'') True) True \<noteq> sanitize (js ''aaaaaaaaaaaaaaaaaaaaaaaaaaaaaaaaaaaaaaaaaaaaaaaaa b'') True"
  by (simp add: san_defs)

text \<open>
  Claim C6, amended. The standard mode is idempotent. In compatibility mode a second
  application returns the first result exactly when that result does not end in an
  underscore; and the result of the second application is stable under a third.
\<close>

theorem sanitize_idempotent_amended:
  "sanitize (sanitize x False) False = sanitize x False
   \<and> ((sanitize (sanitize x True) True = sanitize x True) = (last (sanitize x True) \<noteq> underscore))
   \<and> sanitize (sanitize (sanitize x True) True) True = sanitize (sanitize x True) True"
  by (simp add: sanitize_def sanitize_standard_idem sanitize_compat_idem_iff sanitize_compat_third)

text \<open>
  The theorem of claim C6 at the title \<open>Official Video! (HD) - 2024\<close>.
\<close>

theorem sanitize_idempotent_amended_witness:
  "last (sanitize (js ''Official Video! (HD) '' @ [8212] @ js '' 2024'') True) \<noteq> underscore
   \<and> sanitize (sanitize (js ''Official Video! (HD) '' @ [8212] @ js '' 2024'') True) True = sanitize (js ''Official Video! (HD) '' @ [8212] @ js '' 2024'') True
   \<and> sanitize (sanitize (js ''Official Video! (HD) '' @ [8212] @ js '' 2024'') False) False = sanitize (js ''Official Video! (HD) '' @ [8212] @ js '' 2024'') False"
proof -
  have l: "last (sanitize (js ''Official Video! (HD) '' @ [8212] @ js '' 2024'') True) \<noteq> underscore"
    by (simp add: san_defs)
  from sanitize_idempotent_amended [of "js ''Official Video! (HD) '' @ [8212] @ js '' 2024''"] l show ?thesis by simp
qed

text \<open>
  Claim C7. In compatibility mode the result has between 1 and 50 characters, each a
  letter, a digit or an underscore, and it is \<open>youtube_audio\<close> when the cleaned title
  is empty.
\<close>

theorem sanitize_compat_shape:
  "1 \<le> length (sanitize x True) \<and> length (sanitize x True) \<le> 50
   \<and> (\<forall>c \<in> set (sanitize x True). is_letter c \<or> is_digit c \<or> c = underscore)
   \<and> (cleanTitle x = [] \<longrightarrow> sanitize x True = js ''youtube_audio'')"
proof -
  have "sanitize_compat x \<noteq> []" using sanitize_compat_props [of x] by simp
  then have 1: "1 \<le> length (sanitize_compat x)" by (cases "sanitize_compat x") simp_all
  have 2: "length (sanitize_compat x) \<le> 50" using sanitize_compat_props [of x] by simp
  have 3: "\<forall>c \<in> set (sanitize_compat x). is_letter c \<or> is_digit c \<or> c = underscore"
    using sanitize_compat_props [of x] by (simp add: is_word_def)
  have 4: "cleanTitle x = [] \<longrightarrow> sanitize_compat x = js ''youtube_audio''"
    by (simp add: sanitize_compat_def default_title_def)
  from 1 2 3 4 show ?thesis by (simp add: sanitize_def)
qed

text \<open>
  The theorem of claim C7 at the title \<open>!!!\<close>, which cleans to the empty string,
  and at the title of the scenario, with its dash U+2014.
\<close>

theorem sanitize_compat_shape_witness:
  "cleanTitle (js ''!!!'') = [] \<and> sanitize (js ''!!!'') True = js ''youtube_audio''
   \<and> 1 \<le> length (sanitize (js ''Official Video! (HD) '' @ [8212] @ js '' 2024'') True)
   \<and> length (sanitize (js ''Official Video! (HD) '' @ [8212] @ js '' 2024'') True) \<le> 50
   \<and> sanitize (js ''Official Video! (HD) '' @ [8212] @ js '' 2024'') True = js ''Official_Video_HD_2024''"
proof -
  have e: "cleanTitle (js ''!!!'') = []" by (simp add: san_defs)
  have v: "sanitize (js ''Official Video! (HD) '' @ [8212] @ js '' 2024'') True = js ''Official_Video_HD_2024''"
    by (simp add: san_defs)
  from sanitize_compat_shape [of "js ''!!!''"] e
    sanitize_compat_shape [of "js ''Official Video! (HD) '' @ [8212] @ js '' 2024''"] v
  show ?thesis by simp
qed

section \<open>Properties of the format selector\<close>

lemmas sel_defs = select_def audioFormats_def audio_only_def muxed_def truthy_number_def bitrate_or_0_def
  around_128_def at_most_128_def around_192_def at_least_192_def or_else_def first_format_def Let_def

lemma sorted_desc: "sorted (map (\<lambda>f. - bitrate_or_0 f) (audioFormats fs))"
  by (simp add: audioFormats_def)

lemma set_audioFormats:
  "set (audioFormats fs) = {f \<in> set fs. hasAudio f \<and> \<not> hasVideo f \<and> truthy_number (audioBitrate f)}"
  by (auto simp: audioFormats_def)

lemma audioFormats_stable:
  "filter (\<lambda>f. bitrate_or_0 f = k) (audioFormats fs) =
   filter (\<lambda>f. bitrate_or_0 f = k)
     (filter (\<lambda>f. truthy_number (audioBitrate f)) (filter (\<lambda>f. hasAudio f \<and> \<not> hasVideo f) fs))"
  using sort_key_stable [of "\<lambda>f. - bitrate_or_0 f" "- k"]
  by (simp add: audioFormats_def)

lemma find_first_is_max:
  "sorted (map key xs) \<Longrightarrow> find P xs = Some g \<Longrightarrow> x \<in> set xs \<Longrightarrow> P x \<Longrightarrow> key g \<le> key x"
  by (induction xs) (auto split: if_splits)

lemma find_in_set: "find P xs = Some g \<Longrightarrow> g \<in> set xs \<and> P g"
  by (induction xs) (auto split: if_splits)

lemma find_exists: "x \<in> set xs \<Longrightarrow> P x \<Longrightarrow> \<exists>g. find P xs = Some g"
  by (induction xs) auto

lemma sorted_head_min: "sorted (map key xs) \<Longrightarrow> x \<in> set xs \<Longrightarrow> key (hd xs) \<le> key x"
  by (cases xs) auto

lemma first_format_Some: "first_format xs = Some g \<Longrightarrow> g \<in> set xs"
  by (cases xs) (auto simp: first_format_def)

lemma first_format_None: "first_format xs = None \<longleftrightarrow> xs = []"
  by (cases xs) (auto simp: first_format_def)

lemma or_else_Some: "or_else a b = Some g \<Longrightarrow> a = Some g \<or> (a = None \<and> b = Some g)"
  by (cases a) (auto simp: or_else_def)

lemma or_else_left: "or_else (Some g) b = Some g"
  by (simp add: or_else_def)

lemma select_in_audioFormats:
  "select b candidates = Some g \<Longrightarrow> g \<in> set (audioFormats candidates)"
proof -
  assume a: "select b candidates = Some g"
  let ?fs = "audioFormats candidates"
  have f: "find P ?fs = Some g \<Longrightarrow> g \<in> set ?fs" for P
    using find_in_set [of P ?fs g] by simp
  from a show ?thesis
    unfolding select_def Let_def or_else_def
    by (auto split: option.splits if_splits dest: f first_format_Some)
qed

lemma select_None_iff: "select b candidates = None \<longleftrightarrow> audioFormats candidates = []"
proof
  assume "select b candidates = None"
  then have "first_format (audioFormats candidates) = None"
    unfolding select_def Let_def or_else_def by (auto split: option.splits)
  then show "audioFormats candidates = []" by (simp add: first_format_None)
next
  assume "audioFormats candidates = []"
  then show "select b candidates = None"
    by (simp add: select_def Let_def or_else_def first_format_def)
qed

lemma tier2_192_head:
  assumes "find at_least_192 (audioFormats candidates) = Some g"
  shows "first_format (audioFormats candidates) = Some g"
proof -
  let ?fs = "audioFormats candidates"
  have g: "g \<in> set ?fs" "at_least_192 g" using find_in_set [OF assms] by simp_all
  then obtain h t where ht: "?fs = h # t" by (cases ?fs) auto
  have "- bitrate_or_0 h \<le> - bitrate_or_0 g"
    using sorted_head_min [OF sorted_desc g(1)] ht by simp
  with g(2) have "at_least_192 h" by (simp add: at_least_192_def)
  with assms ht have "g = h" by simp
  with ht show ?thesis by (simp add: first_format_def)
qed

lemma first_format_max:
  assumes "first_format (audioFormats candidates) = Some g" and "f \<in> set (audioFormats candidates)"
  shows "bitrate_or_0 f \<le> bitrate_or_0 g"
proof -
  from assms(1) have "hd (audioFormats candidates) = g"
    by (cases "audioFormats candidates") (auto simp: first_format_def)
  with sorted_head_min [OF sorted_desc assms(2)] show ?thesis by simp
qed

lemma around_ideal:
  "around_128 f = in_ideal_range 128 (bitrate_or_0 f)" "around_192 f = in_ideal_range 192 (bitrate_or_0 f)"
  by (auto simp: around_128_def around_192_def in_ideal_range_def)

text \<open>
  Claim C1. For a bitrate class of 128 or 192, when some candidate is audio-only with a known
  bitrate in the ideal range of the class (96..160 for 128, 160..256 for 192), the selection
  returns a candidate of that range: the first one of the filtered list sorted by bitrate
  descending, hence one of greatest bitrate among those of the range, and not a fallback.
\<close>

theorem select_prefers_ideal_range:
  assumes b: "b = 128 \<or> b = 192"
    and c: "c \<in> set candidates" "hasAudio c" "\<not> hasVideo c" "audioBitrate c = Some k"
    and k: "in_ideal_range b k"
  shows "\<exists>g. select b candidates = Some g \<and> g \<in> set candidates \<and> hasAudio g \<and> \<not> hasVideo g
           \<and> in_ideal_range b (bitrate_or_0 g)
           \<and> find (\<lambda>f. in_ideal_range b (bitrate_or_0 f)) (audioFormats candidates) = Some g
           \<and> (\<forall>f \<in> set (audioFormats candidates).
                 in_ideal_range b (bitrate_or_0 f) \<longrightarrow> bitrate_or_0 f \<le> bitrate_or_0 g)"
proof -
  let ?fs = "audioFormats candidates"
  let ?P = "\<lambda>f. in_ideal_range b (bitrate_or_0 f)"
  have "k \<noteq> 0" using k by (auto simp: in_ideal_range_def split: if_splits)
  with c have cin: "c \<in> set ?fs" by (simp add: set_audioFormats truthy_number_def)
  have "?P c" using c(4) k by (simp add: bitrate_or_0_def)
  with cin obtain g where g: "find ?P ?fs = Some g" using find_exists [of c ?fs ?P] by auto
  have sel: "select b candidates = Some g"
  proof -
    have P128: "b = 128 \<Longrightarrow> around_128 = ?P" by (rule ext) (simp add: around_ideal)
    have P192: "b = 192 \<Longrightarrow> around_192 = ?P" by (rule ext) (simp add: around_ideal)
    from b show ?thesis
    proof
      assume "b = 128"
      then show ?thesis using g P128 by (simp add: select_def Let_def or_else_left)
    next
      assume "b = 192"
      then show ?thesis using g P192 by (simp add: select_def Let_def or_else_left)
    qed
  qed
  have gin: "g \<in> set ?fs" "?P g" using find_in_set [OF g] by simp_all
  have max: "\<forall>f \<in> set ?fs. ?P f \<longrightarrow> bitrate_or_0 f \<le> bitrate_or_0 g"
  proof (intro ballI impI)
    fix f assume "f \<in> set ?fs" "?P f"
    then have "- bitrate_or_0 g \<le> - bitrate_or_0 f"
      by (rule find_first_is_max [OF sorted_desc g])
    then show "bitrate_or_0 f \<le> bitrate_or_0 g" by simp
  qed
  from gin(1) have "g \<in> set candidates" "hasAudio g" "\<not> hasVideo g"
    by (simp_all add: set_audioFormats)
  with sel gin(2) g max show ?thesis by (intro exI [of _ g]) simp
qed

text \<open>
  The theorem of claim C1 at class 192 and the candidates of 128 and 160 kbps.
\<close>

theorem select_prefers_ideal_range_witness:
  "(192 = (128::int) \<or> 192 = (192::int))
   \<and> audio_only 2 160 \<in> set [audio_only 1 128, audio_only 2 160]
   \<and> hasAudio (audio_only 2 160) \<and> \<not> hasVideo (audio_only 2 160)
   \<and> audioBitrate (audio_only 2 160) = Some 160 \<and> in_ideal_range 192 160
   \<and> (\<exists>g. select 192 [audio_only 1 128, audio_only 2 160] = Some g
          \<and> g \<in> set [audio_only 1 128, audio_only 2 160] \<and> hasAudio g \<and> \<not> hasVideo g
          \<and> in_ideal_range 192 (bitrate_or_0 g)
          \<and> find (\<lambda>f. in_ideal_range 192 (bitrate_or_0 f))
                (audioFormats [audio_only 1 128, audio_only 2 160]) = Some g
          \<and> (\<forall>f \<in> set (audioFormats [audio_only 1 128, audio_only 2 160]).
                in_ideal_range 192 (bitrate_or_0 f) \<longrightarrow> bitrate_or_0 f \<le> bitrate_or_0 g))"
proof -
  have h: "192 = (128::int) \<or> 192 = (192::int)"
    "audio_only 2 160 \<in> set [audio_only 1 128, audio_only 2 160]"
    "hasAudio (audio_only 2 160)" "\<not> hasVideo (audio_only 2 160)"
    "audioBitrate (audio_only 2 160) = Some 160" "in_ideal_range 192 160"
    by (simp_all add: audio_only_def in_ideal_range_def)
  from select_prefers_ideal_range [OF h] h show ?thesis by blast
qed

text \<open>
  Claim C2. For class 128 and the audio-only candidates of 96, 128, 160 and 320 kbps the
  selection returns the 160 kbps candidate, the first of the ideal range in descending
  order, and not the 128 kbps one.
\<close>

theorem select_128_scenario:
  "select 128 [audio_only 1 96, audio_only 2 128, audio_only 3 160, audio_only 4 320]
     = Some (audio_only 3 160)
   \<and> select 128 [audio_only 1 96, audio_only 2 128, audio_only 3 160, audio_only 4 320]
     \<noteq> Some (audio_only 2 128)"
  by (simp add: sel_defs)

text \<open>
  Claim C3 as stated fails: a candidate list that is not empty but holds no audio-only
  format gives no selection at all.
\<close>

theorem select_nonempty_counterexample: "[muxed 1 128] \<noteq> [] \<and> select 128 [muxed 1 128] = None \<and> select 192 [muxed 1 128] = None"
  by (simp add: sel_defs)

text \<open>
  Claim C3, amended. Whatever the selection returns is a candidate with audio, without
  video and with a known non-zero bitrate, for every bitrate class; it returns a candidate
  whenever some candidate is of that kind; and it returns none when no candidate is.
\<close>

theorem select_audio_only:
  "(\<forall>g. select b candidates = Some g \<longrightarrow>
        g \<in> set candidates \<and> hasAudio g \<and> \<not> hasVideo g \<and> truthy_number (audioBitrate g))
   \<and> ((\<exists>c \<in> set candidates. hasAudio c \<and> \<not> hasVideo c \<and> truthy_number (audioBitrate c))
        \<longrightarrow> (\<exists>g. select b candidates = Some g))
   \<and> (\<not> (\<exists>c \<in> set candidates. hasAudio c \<and> \<not> hasVideo c \<and> truthy_number (audioBitrate c))
        \<longrightarrow> select b candidates = None)"
proof -
  have 1: "g \<in> set candidates \<and> hasAudio g \<and> \<not> hasVideo g \<and> truthy_number (audioBitrate g)"
    if "select b candidates = Some g" for g
    using select_in_audioFormats [OF that] by (simp add: set_audioFormats)
  have e: "(\<exists>c \<in> set candidates. hasAudio c \<and> \<not> hasVideo c \<and> truthy_number (audioBitrate c))
      = (set (audioFormats candidates) \<noteq> {})"
    by (auto simp: set_audioFormats)
  have 2: "\<exists>g. select b candidates = Some g"
    if "(\<exists>c \<in> set candidates. hasAudio c \<and> \<not> hasVideo c \<and> truthy_number (audioBitrate c))"
  proof -
    from that e have "select b candidates \<noteq> None" by (simp add: select_None_iff)
    then show ?thesis by auto
  qed
  have 3: "select b candidates = None"
    if "\<not> (\<exists>c \<in> set candidates. hasAudio c \<and> \<not> hasVideo c \<and> truthy_number (audioBitrate c))"
    using that e by (simp add: select_None_iff)
  from 1 2 3 show ?thesis by blast
qed

text \<open>
  The theorem of claim C3 at a list of one muxed and one audio-only candidate, and at a
  list whose audio-only candidate has the bitrate 0.
\<close>

theorem select_audio_only_witness:
  "(\<exists>c \<in> set [muxed 1 128, audio_only 2 48]. hasAudio c \<and> \<not> hasVideo c \<and> truthy_number (audioBitrate c))
   \<and> select 128 [muxed 1 128, audio_only 2 48] = Some (audio_only 2 48)
   \<and> audio_only 2 48 \<in> set [muxed 1 128, audio_only 2 48]
   \<and> hasAudio (audio_only 2 48) \<and> \<not> hasVideo (audio_only 2 48)
   \<and> truthy_number (audioBitrate (audio_only 2 48))
   \<and> \<not> (\<exists>c \<in> set [muxed 1 128, audio_only 2 0]. hasAudio c \<and> \<not> hasVideo c \<and> truthy_number (audioBitrate c))
   \<and> select 192 [muxed 1 128, audio_only 2 0] = None"
proof -
  have e: "\<exists>c \<in> set [muxed 1 128, audio_only 2 48]. hasAudio c \<and> \<not> hasVideo c \<and> truthy_number (audioBitrate c)"
    by (simp add: audio_only_def truthy_number_def)
  have v: "select 128 [muxed 1 128, audio_only 2 48] = Some (audio_only 2 48)"
    by (simp add: sel_defs)
  have n: "\<not> (\<exists>c \<in> set [muxed 1 128, audio_only 2 0]. hasAudio c \<and> \<not> hasVideo c \<and> truthy_number (audioBitrate c))"
    by (simp add: audio_only_def muxed_def truthy_number_def)
  from select_audio_only [of 128 "[muxed 1 128, audio_only 2 48]"]
    select_audio_only [of 192 "[muxed 1 128, audio_only 2 0]"] e v n
  show ?thesis by blast
qed

text \<open>
  Claim C4. On a candidate list whose filtered set is empty the selection gives none, but
  the handler then hands \<open>ytdl\<close> the absent format and no quality or filter option:
  the request for the highest audio-only quality is made in the \<open>catch\<close> branch only.
\<close>

theorem stream_options_empty_filtered:
  "audioFormats [muxed 1 128] = []
   \<and> select (parseInt_bitrate (JStr (js ''128''))) [muxed 1 128] = None
   \<and> stream_options (parseInt_bitrate (JStr (js ''128''))) (Inr [muxed 1 128] :: unit + format list)
       = \<lparr>opt_format = None, opt_quality = None, opt_filter = None\<rparr>
   \<and> stream_options (parseInt_bitrate (JStr (js ''128''))) (Inr [muxed 1 128] :: unit + format list)
       \<noteq> highest_audio_options
   \<and> stream_options (parseInt_bitrate (JStr (js ''128''))) (Inl () :: unit + format list)
       = highest_audio_options"
  by (simp add: sel_defs stream_options_def highest_audio_options_def parseInt_bitrate_def)

text \<open>
  Claim C10. For class 192, when the second tier (the first candidate of at least 192 kbps
  in descending order) matches, its candidate is the head of the sorted filtered list, which
  is what the fallback returns, and no filtered candidate has a greater bitrate.
\<close>

theorem tier2_192_is_global_best:
  assumes "find at_least_192 (audioFormats candidates) = Some g"
  shows "first_format (audioFormats candidates) = Some g
         \<and> (\<forall>f \<in> set (audioFormats candidates). bitrate_or_0 f \<le> bitrate_or_0 g)"
  using tier2_192_head [OF assms] first_format_max [of candidates g] by simp

text \<open>
  The theorem of claim C10 at the candidates of 128, 320 and 256 kbps.
\<close>

theorem tier2_192_is_global_best_witness:
  "find at_least_192 (audioFormats [audio_only 1 128, audio_only 2 320, audio_only 3 256])
     = Some (audio_only 2 320)
   \<and> first_format (audioFormats [audio_only 1 128, audio_only 2 320, audio_only 3 256])
     = Some (audio_only 2 320)
   \<and> bitrate_or_0 (audio_only 3 256) \<le> bitrate_or_0 (audio_only 2 320)"
proof -
  let ?cs = "[audio_only 1 128, audio_only 2 320, audio_only 3 256]"
  have h: "find at_least_192 (audioFormats ?cs) = Some (audio_only 2 320)"
    by (simp add: sel_defs)
  have m: "audio_only 3 256 \<in> set (audioFormats ?cs)"
    by (simp add: set_audioFormats audio_only_def truthy_number_def)
  from tier2_192_is_global_best [OF h] h m show ?thesis by blast
qed

section \<open>Properties of the request validation\<close>

lemma messages_distinct:
  "distinct [url_required, invalid_bitrate, invalid_sample_rate, invalid_youtube_url]"
  by (simp add: url_required_def invalid_bitrate_def invalid_sample_rate_def
      invalid_youtube_url_def js_def)

lemma download_validation_not_null:
  assumes "body \<noteq> JNull"
  shows "POST_download_validation validateURL (Some body) =
     (let url = get_property body (js ''url'');
          bitrate = with_default (get_property body (js ''bitrate'')) (JStr (js ''128''));
          sampleRate = with_default (get_property body (js ''sampleRate'')) (JStr (js ''22050''));
          oldPhoneMode = with_default (get_property body (js ''oldPhoneMode'')) (JBool True)
      in if \<not> truthy url then (Inl (ErrorJson 400 url_required), [])
         else if bitrate \<notin> set [JStr (js ''128''), JStr (js ''192'')]
           then (Inl (ErrorJson 400 invalid_bitrate), [])
         else if sampleRate \<notin> set [JStr (js ''16000''), JStr (js ''22050''), JStr (js ''44100'')]
           then (Inl (ErrorJson 400 invalid_sample_rate), [])
         else if \<not> validateURL (the url)
           then (Inl (ErrorJson 400 invalid_youtube_url), [ValidateURL (the url)])
         else (Inr \<lparr>req_url = the url, req_bitrate = bitrate, req_sampleRate = sampleRate,
                     req_oldPhoneMode = oldPhoneMode\<rparr>, [ValidateURL (the url)]))"
  using assms unfolding POST_download_validation_def by (cases body) simp_all

lemma test_validation_not_null:
  assumes "body \<noteq> JNull"
  shows "POST_test_validation validateURL (Some body) =
     (let url = get_property body (js ''url'')
      in if \<not> truthy url then (Inl (ErrorJson 400 url_required), [])
         else if \<not> validateURL (the url)
           then (Inl (ErrorJson 400 invalid_youtube_url), [ValidateURL (the url)])
         else (Inr (the url), [ValidateURL (the url)]))"
  using assms unfolding POST_test_validation_def by (cases body) simp_all

text \<open>
  Claim C8 as stated fails: the body \<open>null\<close> parses, has no \<open>url\<close>, and makes
  the destructuring throw, which the outer \<open>catch\<close> answers with status 500.
\<close>

theorem validation_null_body_counterexample:
  "get_property JNull (js ''url'') = None
   \<and> POST_download_validation (\<lambda>u. True) (Some JNull) = (Inl (ServerError DestructureNull), [])
   \<and> POST_test_validation (\<lambda>u. True) (Some JNull) = (Inl (ServerError DestructureNull), [])
   \<and> status_of (ServerError DestructureNull) = 500"
  by (simp add: POST_download_validation_def POST_test_validation_def)

text \<open>
  Claim C8, amended. For a body that parses to a value other than \<open>null\<close>: a missing
  or falsy \<open>url\<close> gives status 400 with \<open>URL is required\<close> on both routes; on the
  download route a bitrate outside 128 and 192, or a sample rate outside 16000, 22050 and
  44100, gives status 400, with the message of the first check that fails in the order url,
  bitrate, sample rate; the three messages differ; and no resolver call has been made.
\<close>

theorem validation_rejects_before_resolver:
  assumes "body \<noteq> JNull"
  shows "(\<not> truthy (get_property body (js ''url'')) \<longrightarrow>
            POST_download_validation validateURL (Some body)
              = (Inl (ErrorJson 400 (js ''URL is required'')), [])
          \<and> POST_test_validation validateURL (Some body)
              = (Inl (ErrorJson 400 (js ''URL is required'')), []))
    \<and> (with_default (get_property body (js ''bitrate'')) (JStr (js ''128''))
          \<notin> {JStr (js ''128''), JStr (js ''192'')} \<longrightarrow>
          snd (POST_download_validation validateURL (Some body)) = []
        \<and> (\<exists>m. fst (POST_download_validation validateURL (Some body)) = Inl (ErrorJson 400 m))
        \<and> (truthy (get_property body (js ''url'')) \<longrightarrow>
             fst (POST_download_validation validateURL (Some body))
               = Inl (ErrorJson 400 invalid_bitrate)))
    \<and> (with_default (get_property body (js ''sampleRate'')) (JStr (js ''22050''))
          \<notin> {JStr (js ''16000''), JStr (js ''22050''), JStr (js ''44100'')} \<longrightarrow>
          snd (POST_download_validation validateURL (Some body)) = []
        \<and> (\<exists>m. fst (POST_download_validation validateURL (Some body)) = Inl (ErrorJson 400 m))
        \<and> (truthy (get_property body (js ''url''))
             \<and> with_default (get_property body (js ''bitrate'')) (JStr (js ''128''))
                 \<in> {JStr (js ''128''), JStr (js ''192'')} \<longrightarrow>
             fst (POST_download_validation validateURL (Some body))
               = Inl (ErrorJson 400 invalid_sample_rate)))
    \<and> distinct [js ''URL is required'', invalid_bitrate, invalid_sample_rate]"
proof -
  have d: "distinct [js ''URL is required'', invalid_bitrate, invalid_sample_rate]"
    using messages_distinct by (simp add: url_required_def)
  show ?thesis
    unfolding download_validation_not_null [OF assms] test_validation_not_null [OF assms]
    using d by (simp add: Let_def url_required_def)
qed

text \<open>
  The theorem of claim C8 at three bodies: no url, a bitrate of 320, a sample rate of 8000.
\<close>

theorem validation_rejects_before_resolver_witness:
  "JObj [(js ''bitrate'', JStr (js ''320''))] \<noteq> JNull
   \<and> \<not> truthy (get_property (JObj [(js ''bitrate'', JStr (js ''320''))]) (js ''url''))
   \<and> POST_download_validation (\<lambda>u. True) (Some (JObj [(js ''bitrate'', JStr (js ''320''))]))
       = (Inl (ErrorJson 400 (js ''URL is required'')), [])
   \<and> POST_test_validation (\<lambda>u. True) (Some (JObj [(js ''bitrate'', JStr (js ''320''))]))
       = (Inl (ErrorJson 400 (js ''URL is required'')), [])
   \<and> POST_download_validation (\<lambda>u. True) (Some (JObj [(js ''url'', JStr (js ''https://youtu.be/dQw4w9WgXcQ'')), (js ''bitrate'', JStr (js ''320''))]))
       = (Inl (ErrorJson 400 invalid_bitrate), [])
   \<and> POST_download_validation (\<lambda>u. True) (Some (JObj [(js ''url'', JStr (js ''https://youtu.be/dQw4w9WgXcQ'')), (js ''sampleRate'', JStr (js ''8000''))]))
       = (Inl (ErrorJson 400 invalid_sample_rate), [])"
proof -
  let ?b1 = "JObj [(js ''bitrate'', JStr (js ''320''))]"
  let ?b2 = "JObj [(js ''url'', JStr (js ''https://youtu.be/dQw4w9WgXcQ'')), (js ''bitrate'', JStr (js ''320''))]"
  let ?b3 = "JObj [(js ''url'', JStr (js ''https://youtu.be/dQw4w9WgXcQ'')), (js ''sampleRate'', JStr (js ''8000''))]"
  have n: "?b1 \<noteq> JNull" "?b2 \<noteq> JNull" "?b3 \<noteq> JNull" by simp_all
  have u1: "\<not> truthy (get_property ?b1 (js ''url''))" by (simp add: js_def)
  have u2: "truthy (get_property ?b2 (js ''url''))" by (simp add: js_def)
  have r2: "with_default (get_property ?b2 (js ''bitrate'')) (JStr (js ''128''))
      \<notin> {JStr (js ''128''), JStr (js ''192'')}"
    by (simp add: js_def with_default_def)
  have u3: "truthy (get_property ?b3 (js ''url''))" by (simp add: js_def)
  have r3: "with_default (get_property ?b3 (js ''bitrate'')) (JStr (js ''128''))
      \<in> {JStr (js ''128''), JStr (js ''192'')}"
    by (simp add: js_def with_default_def)
  have s3: "with_default (get_property ?b3 (js ''sampleRate'')) (JStr (js ''22050''))
      \<notin> {JStr (js ''16000''), JStr (js ''22050''), JStr (js ''44100'')}"
    by (simp add: js_def with_default_def)
  have a: "POST_download_validation (\<lambda>u. True) (Some ?b1)
             = (Inl (ErrorJson 400 (js ''URL is required'')), [])"
    "POST_test_validation (\<lambda>u. True) (Some ?b1)
             = (Inl (ErrorJson 400 (js ''URL is required'')), [])"
    using validation_rejects_before_resolver [OF n(1), of "\<lambda>u. True"] u1 by blast+
  have b: "POST_download_validation (\<lambda>u. True) (Some ?b2) = (Inl (ErrorJson 400 invalid_bitrate), [])"
    using validation_rejects_before_resolver [OF n(2), of "\<lambda>u. True"] u2 r2
    by (intro prod_eqI) auto
  have c: "POST_download_validation (\<lambda>u. True) (Some ?b3) = (Inl (ErrorJson 400 invalid_sample_rate), [])"
    using validation_rejects_before_resolver [OF n(3), of "\<lambda>u. True"] u3 r3 s3
    by (intro prod_eqI) auto
  from n(1) u1 a b c show ?thesis by simp
qed

section \<open>Properties of the client post-processing\<close>

lemma convertToMp3_cases:
  "fst (convertToMp3 buf br sr opm onProgress) = Resolved \<lparr>blob_bytes = buf, blob_type = js ''audio/mpeg''\<rparr>
   \<or> fst (convertToMp3 buf br sr opm onProgress) = Pending"
  by (cases onProgress) (simp_all add: convertToMp3_def report_def Let_def)

text \<open>
  Claim C9. \<open>convertToMp3\<close> never rejects, and a blob it resolves with holds the
  input bytes unchanged under the media type \<open>audio/mpeg\<close>; with a progress callback
  that does not throw it resolves and reports exactly 20, 50, 80, 100, in increasing order.
\<close>

theorem convertToMp3_passthrough:
  "fst (convertToMp3 buf br sr opm onProgress) \<noteq> Rejected
   \<and> (\<forall>b. fst (convertToMp3 buf br sr opm onProgress) = Resolved b \<longrightarrow>
         blob_bytes b = buf \<and> blob_type b = js ''audio/mpeg'')
   \<and> ((\<forall>calls p. \<not> cb calls p) \<longrightarrow>
         convertToMp3 buf br sr opm (Some cb)
           = (Resolved \<lparr>blob_bytes = buf, blob_type = js ''audio/mpeg''\<rparr>, [20, 50, 80, 100])
         \<and> sorted_wrt (<) (snd (convertToMp3 buf br sr opm (Some cb))))"
proof -
  have 1: "fst (convertToMp3 buf br sr opm onProgress) \<noteq> Rejected"
    using convertToMp3_cases [of buf br sr opm onProgress] by auto
  have 2: "blob_bytes b = buf \<and> blob_type b = js ''audio/mpeg''"
    if "fst (convertToMp3 buf br sr opm onProgress) = Resolved b" for b
    using convertToMp3_cases [of buf br sr opm onProgress] that by auto
  have 3: "convertToMp3 buf br sr opm (Some cb)
           = (Resolved \<lparr>blob_bytes = buf, blob_type = js ''audio/mpeg''\<rparr>, [20, 50, 80, 100])"
    if "\<forall>calls p. \<not> cb calls p"
    using that by (simp add: convertToMp3_def report_def Let_def)
  from 1 2 3 show ?thesis by simp
qed

text \<open>
  The theorem of claim C9 at a buffer of three bytes and a callback that never throws.
\<close>

theorem convertToMp3_passthrough_witness:
  "convertToMp3 [73, 68, 51] (js ''128'') (js ''22050'') True (Some (\<lambda>calls p. False))
     = (Resolved \<lparr>blob_bytes = [73, 68, 51], blob_type = js ''audio/mpeg''\<rparr>, [20, 50, 80, 100])
   \<and> sorted_wrt (<) (snd (convertToMp3 [73, 68, 51] (js ''128'') (js ''22050'') True (Some (\<lambda>calls p. False))))"
  using convertToMp3_passthrough [of "[73, 68, 51]" "js ''128''" "js ''22050''" True None "\<lambda>calls p. False"]
  by simp

end
